theory Spec2Isabelle
  imports Main
begin

section \<open>Python strings\<close>

text \<open>
  A Python \<^verbatim>\<open>str\<close> is modelled as a HOL \<^typ>\<open>string\<close>: the bytes of its UTF-8
  encoding. Substring tests and equality agree with Python's on code points, since UTF-8 is
  self-synchronising. \<^verbatim>\<open>str.lower\<close>, \<^verbatim>\<open>str.strip\<close> and the regular-expression
  classes \<^verbatim>\<open>\s\<close>, \<^verbatim>\<open>\d\<close> are modelled on ASCII; none of the needles the two
  scrapers search for (\<^verbatim>\<open>view event\<close>, \<^verbatim>\<open>export\<close>, \<^verbatim>\<open>filter\<close>,
  \<^verbatim>\<open>location:\<close>, \<^verbatim>\<open>hall\<close>) has a letter that is the lower case of
  a non-ASCII code point alone.
\<close>

definition whitespace :: "char list" where
  "whitespace = [CHR 0x09, CHR 0x0A, CHR 0x0B, CHR 0x0C, CHR 0x0D,
                 CHR 0x1C, CHR 0x1D, CHR 0x1E, CHR 0x1F, CHR 0x20]"

definition isspace :: "char \<Rightarrow> bool" where
  "isspace c = (c \<in> set whitespace)"

definition isdigit :: "char \<Rightarrow> bool" where
  "isdigit c = (c \<in> set ''0123456789'')"

definition lower_char :: "char \<Rightarrow> char" where
  "lower_char c =
     (case map_of (zip ''ABCDEFGHIJKLMNOPQRSTUVWXYZ'' ''abcdefghijklmnopqrstuvwxyz'') c of
        None \<Rightarrow> c
      | Some d \<Rightarrow> d)"

definition lower :: "string \<Rightarrow> string" where
  "lower s = map lower_char s"

definition strip :: "string \<Rightarrow> string" where
  "strip s = rev (dropWhile isspace (rev (dropWhile isspace s)))"

fun startswith :: "string \<Rightarrow> string \<Rightarrow> bool" where
  "startswith s [] = True"
| "startswith [] (p # ps) = False"
| "startswith (c # cs) (p # ps) = (c = p \<and> startswith cs ps)"

definition endswith :: "string \<Rightarrow> string \<Rightarrow> bool" where
  "endswith s p = startswith (rev s) (rev p)"

text \<open>\<^verbatim>\<open>sub in s\<close> on strings, which is also what \<^verbatim>\<open>re.search\<close> does with a
  pattern of literal characters.\<close>

fun contains :: "string \<Rightarrow> string \<Rightarrow> bool" where
  "contains sub [] = (sub = [])"
| "contains sub (c # cs) = (startswith (c # cs) sub \<or> contains sub cs)"

text \<open>\<^verbatim>\<open>s.split(sep)\<close> for a one-character separator.\<close>

fun split_char :: "char \<Rightarrow> string \<Rightarrow> string list" where
  "split_char sep [] = [[]]"
| "split_char sep (c # cs) =
     (case split_char sep cs of
        [] \<Rightarrow> [[c]]
      | w # ws \<Rightarrow> if c = sep then [] # w # ws else (c # w) # ws)"

text \<open>The whitespace-separated tokens of an attribute value (how the HTML tree builder
  turns a \<^verbatim>\<open>class\<close> attribute into a list).\<close>

fun tokens :: "string \<Rightarrow> string list" where
  "tokens [] = []"
| "tokens (c # cs) =
     (if isspace c then tokens cs
      else (case tokens cs of
              [] \<Rightarrow> [[c]]
            | w # ws \<Rightarrow> if cs \<noteq> [] \<and> \<not> isspace (hd cs) then (c # w) # ws else [c] # w # ws))"

text \<open>Decimal rendering of an integer, as an f-string does it.\<close>

function str_nat :: "nat \<Rightarrow> string" where
  "str_nat n =
     (if n < 10 then [''0123456789'' ! n]
      else str_nat (n div 10) @ [''0123456789'' ! (n mod 10)])"
  by pat_completeness auto
termination
  by (relation "measure (\<lambda>n. n)") auto

declare str_nat.simps [simp del]

definition str_int :: "int \<Rightarrow> string" where
  "str_int i = (if i < 0 then CHR ''-'' # str_nat (nat (- i)) else str_nat (nat i))"

section \<open>The parsed document (BeautifulSoup)\<close>

text \<open>
  The tree that the HTML parser builds: a tag with its name, its attributes and its children,
  or a string. An element handle is a node together with its ancestors, nearest first, so that
  \<^verbatim>\<open>find_parent\<close> can be followed. The root of a parsed document is the
  \<^verbatim>\<open>[document]\<close> tag. Comments and other special strings are not told apart
  from text.
\<close>

datatype node = Tag string "(string \<times> string) list" "node list" | NavigableString string

type_synonym element = "node \<times> node list"

fun tag_name :: "node \<Rightarrow> string option" where
  "tag_name (Tag n a cs) = Some n"
| "tag_name (NavigableString s) = None"

text \<open>\<^verbatim>\<open>tag.get(key)\<close>; a string has no attributes.\<close>

fun get_attr :: "node \<Rightarrow> string \<Rightarrow> string option" where
  "get_attr (Tag n a cs) k = map_of a k"
| "get_attr (NavigableString s) k = None"

fun get_text :: "node \<Rightarrow> string" where
  "get_text (NavigableString s) = s"
| "get_text (Tag n a cs) = concat (map get_text cs)"

text \<open>\<^verbatim>\<open>tag.string\<close>: the single string below a tag, if there is exactly one child
  all the way down.\<close>

fun node_string :: "node \<Rightarrow> string option" where
  "node_string (NavigableString s) = Some s"
| "node_string (Tag n a [c]) = node_string c"
| "node_string (Tag n a cs) = None"

text \<open>The proper descendants of a node in document order, each with its ancestors.\<close>

fun descendants :: "node list \<Rightarrow> node \<Rightarrow> element list" where
  "descendants anc (NavigableString s) = []"
| "descendants anc (Tag n a cs) =
     concat (map (\<lambda>c. (c, Tag n a cs # anc) # descendants (Tag n a cs # anc) c) cs)"

definition find_all :: "element \<Rightarrow> (node \<Rightarrow> bool) \<Rightarrow> element list" where
  "find_all el P = filter (\<lambda>d. P (fst d)) (descendants (snd el) (fst el))"

definition find_first :: "element \<Rightarrow> (node \<Rightarrow> bool) \<Rightarrow> element option" where
  "find_first el P = (case find_all el P of [] \<Rightarrow> None | d # ds \<Rightarrow> Some d)"

fun find_parent :: "element \<Rightarrow> element option" where
  "find_parent (n, []) = None"
| "find_parent (n, p # ps) = Some (p, ps)"

text \<open>\<^verbatim>\<open>el.find_parent(names)\<close>: the nearest proper ancestor whose tag name is listed.\<close>

fun find_parent_named :: "string list \<Rightarrow> element \<Rightarrow> element option" where
  "find_parent_named names (n, []) = None"
| "find_parent_named names (n, p # ps) =
     (if (case tag_name p of None \<Rightarrow> False | Some t \<Rightarrow> t \<in> set names) then Some (p, ps)
      else find_parent_named names (p, ps))"

text \<open>The search criteria the scrapers pass to \<^verbatim>\<open>find\<close> and \<^verbatim>\<open>find_all\<close>.\<close>

definition named :: "string list \<Rightarrow> node \<Rightarrow> bool" where
  "named names n = (case tag_name n of None \<Rightarrow> False | Some t \<Rightarrow> t \<in> set names)"

text \<open>An attribute whose value a predicate accepts; a missing attribute never matches.\<close>

definition attr_matches :: "string \<Rightarrow> (string \<Rightarrow> bool) \<Rightarrow> node \<Rightarrow> bool" where
  "attr_matches k P n = (case get_attr n k of None \<Rightarrow> False | Some v \<Rightarrow> P v)"

text \<open>\<^verbatim>\<open>class_='name'\<close>: \<^verbatim>\<open>class\<close> is multi-valued, one of its tokens must be the name.\<close>

definition has_class :: "string \<Rightarrow> node \<Rightarrow> bool" where
  "has_class c n = attr_matches ''class'' (\<lambda>v. c \<in> set (tokens v)) n"

section \<open>The outside world\<close>

text \<open>
  What the scrapers do to the world is recorded in a history: each HTTP request, each
  \<^verbatim>\<open>time.sleep\<close> of the scrapers' own loops and each page load in the browser. The answer of the network to a request may depend on everything
  that happened before it. \<^verbatim>\<open>session.get\<close> followed by \<^verbatim>\<open>raise_for_status\<close>
  either yields the response text or raises \<^verbatim>\<open>requests.RequestException\<close>.
\<close>

datatype io = Get string | Sleep nat | Browse string

datatype response = Text string | RequestException

text \<open>A value that \<^verbatim>\<open>json.loads\<close> returns; an object is a dictionary, kept as an
  association list that is read with \<^const>\<open>map_of\<close>. Fractional numbers play no role in
  the code.\<close>

datatype json = JNull | JBool bool | JNum int | JStr string | JArr "json list"
  | JObj "(string \<times> json) list"

text \<open>
  The libraries and the world the scrapers run in:
  \<^item> \<open>http_get\<close>: the answer to \<^verbatim>\<open>session.get(url, timeout=30)\<close> with
    \<^verbatim>\<open>raise_for_status\<close>, given the history so far;
  \<^item> \<open>BeautifulSoup\<close>: the HTML parser, from markup to the document root;
  \<^item> \<open>urljoin\<close>: \<^verbatim>\<open>urllib.parse.urljoin\<close>;
  \<^item> \<open>findall_dates\<close>: \<^verbatim>\<open>re.findall\<close> with the date pattern (one or two digits,
    whitespace, a word, optionally an en dash between whitespace and a second day and word);
  \<^item> \<open>findall_calendar_locations\<close>: \<^verbatim>\<open>re.findall\<close> with
    \<^verbatim>\<open>(?:ADNEC|Abu Dhabi|Dubai|Al Dhafra|Sweihan|Al Wathba)[^0-9]*\<close>;
  \<^item> \<open>findall_list_locations\<close>: \<^verbatim>\<open>re.findall\<close> with
    \<^verbatim>\<open>(ADNEC Abu Dhabi|Abu Dhabi|Dubai World Trade Centre|Al Dhafra Region|Sweihan|Al Wathba)\<close>;
  \<^item> \<open>SELENIUM_AVAILABLE\<close>: whether the Selenium imports succeeded;
  \<^item> \<open>webdriver_Chrome\<close>: whether installing the driver and constructing
    \<^verbatim>\<open>webdriver.Chrome\<close> returns a driver (\<open>True\<close>) or raises;
  \<^item> \<open>selenium_session\<close>: the outcome of the \<^verbatim>\<open>try\<close> block of
    \<^verbatim>\<open>fetch_page_with_selenium\<close> (load, wait for the grid, scroll up to ten times):
    the page source, or \<open>None\<close> where the block's \<^verbatim>\<open>except Exception\<close> returns
    \<^verbatim>\<open>None\<close>;
  \<^item> \<open>json_loads\<close>: \<^verbatim>\<open>json.loads\<close>, \<open>None\<close> for \<^verbatim>\<open>JSONDecodeError\<close>;
  \<^item> \<open>isoformat_readable\<close>: \<^verbatim>\<open>datetime.fromisoformat(s).strftime("%d %B %Y")\<close>,
    \<open>None\<close> where it raises.
\<close>

record env =
  http_get :: "io list \<Rightarrow> string \<Rightarrow> response"
  BeautifulSoup :: "string \<Rightarrow> node"
  urljoin :: "string \<Rightarrow> string \<Rightarrow> string"
  findall_dates :: "string \<Rightarrow> string list"
  findall_calendar_locations :: "string \<Rightarrow> string list"
  findall_list_locations :: "string \<Rightarrow> string list"
  SELENIUM_AVAILABLE :: bool
  webdriver_Chrome :: "io list \<Rightarrow> bool"
  selenium_session :: "io list \<Rightarrow> string \<Rightarrow> string option"
  json_loads :: "string \<Rightarrow> json option"
  isoformat_readable :: "string \<Rightarrow> string option"

section \<open>The Abu Dhabi Media Office fetcher\<close>

record Event =
  title :: string
  url :: string
  start_date :: string
  end_date :: string
  location :: string
  organizer :: string
  sector :: string
  description :: string
  view_event_url :: string

definition base_url :: string where
  "base_url = ''https://www.mediaoffice.abudhabi/en/abu-dhabi-events/''"

text \<open>
  \<^verbatim>\<open>fetch_page\<close>: the loop \<^verbatim>\<open>for attempt in range(retries)\<close>, run over the
  attempts that are left. A successful request returns the text; a failed one sleeps
  \<open>2 ^ attempt\<close> if \<open>attempt < retries - 1\<close> and returns \<open>None\<close> otherwise. When
  the range is used up the function falls off its end, which is \<open>None\<close> as well.
\<close>

fun fetch_loop :: "env \<Rightarrow> string \<Rightarrow> int \<Rightarrow> nat list \<Rightarrow> io list \<Rightarrow> string option \<times> io list" where
  "fetch_loop E u retries [] h = (None, h)"
| "fetch_loop E u retries (attempt # rest) h =
     (case http_get E h u of
        Text t \<Rightarrow> (Some t, h @ [Get u])
      | RequestException \<Rightarrow>
          if int attempt < retries - 1
          then fetch_loop E u retries rest (h @ [Get u, Sleep (2 ^ attempt)])
          else (None, h @ [Get u]))"

definition fetch_page :: "env \<Rightarrow> string \<Rightarrow> int \<Rightarrow> io list \<Rightarrow> string option \<times> io list" where
  "fetch_page E u retries h = fetch_loop E u retries [0..<nat retries] h"

definition get_month_url :: "int \<Rightarrow> int \<Rightarrow> string" where
  "get_month_url month year = base_url @ ''?month='' @ str_int month @ ''&year='' @ str_int year"

text \<open>The Arabic label that the calendar strategy rejects, in UTF-8.\<close>

definition arabic_label :: string where
  "arabic_label = [CHR 0xD8, CHR 0xB9, CHR 0xD8, CHR 0xB1, CHR 0xD8, CHR 0xA8, CHR 0xD9, CHR 0x8A]"

text \<open>\<^verbatim>\<open>xs[0] if xs else ""\<close>\<close>

definition first_or_empty :: "string list \<Rightarrow> string" where
  "first_or_empty xs = (case xs of [] \<Rightarrow> [] | x # _ \<Rightarrow> x)"

text \<open>\<^verbatim>\<open>link.get('href', '')\<close>\<close>

definition href_of :: "element \<Rightarrow> string" where
  "href_of link = (case get_attr (fst link) ''href'' of None \<Rightarrow> [] | Some v \<Rightarrow> v)"

definition event_href :: "node \<Rightarrow> bool" where
  "event_href n = (named [''a''] n \<and> attr_matches ''href'' (contains ''/abu-dhabi-events/'') n)"

text \<open>The body of the inner loop of \<^verbatim>\<open>extract_events_from_calendar\<close>: the events
  that one link appends.\<close>

definition calendar_link :: "env \<Rightarrow> string \<Rightarrow> element \<Rightarrow> Event list" where
  "calendar_link E base link =
     (let event_url = urljoin E base (href_of link);
          title = strip (get_text (fst link))
      in if title \<noteq> [] \<and> event_url \<noteq> []
            \<and> \<not> lower title \<in> set [''view event'', ''export'', arabic_label]
         then
           let dates = (case find_parent link of
                          None \<Rightarrow> []
                        | Some parent \<Rightarrow> first_or_empty (findall_dates E (get_text (fst parent))));
               location = (case find_parent link of
                          None \<Rightarrow> []
                        | Some parent \<Rightarrow>
                            (case findall_calendar_locations E (get_text (fst parent)) of
                               [] \<Rightarrow> []
                             | m # _ \<Rightarrow> strip m))
           in [\<lparr>title = title, url = event_url, start_date = dates, end_date = [],
                location = location, organizer = [], sector = [], description = [],
                view_event_url = event_url\<rparr>]
         else [])"

definition extract_events_from_calendar :: "env \<Rightarrow> element \<Rightarrow> string \<Rightarrow> Event list" where
  "extract_events_from_calendar E soup base =
     concat (map (\<lambda>container. concat (map (calendar_link E base) (find_all container event_href)))
       (find_all soup (\<lambda>n. named [''div'', ''a''] n
                            \<and> attr_matches ''class'' (\<lambda>v. contains ''event'' (lower v)) n)))"

text \<open>The body of the loop of \<^verbatim>\<open>extract_events_from_list\<close>: the events that one item
  appends.\<close>

definition list_item :: "env \<Rightarrow> string \<Rightarrow> element \<Rightarrow> Event list" where
  "list_item E base item =
     (case find_first item event_href of
        None \<Rightarrow> []
      | Some event_link \<Rightarrow>
          let title = strip (get_text (fst event_link));
              event_url = urljoin E base (href_of event_link)
          in if title = [] \<or> lower title \<in> set [''view event'', ''export'', ''filter''] then []
             else
               let item_text = get_text (fst item);
                   start = first_or_empty (findall_dates E item_text);
                   loc = first_or_empty (findall_list_locations E item_text);
                   view_link = find_first item (\<lambda>n. named [''a''] n \<and>
                      (case node_string n of None \<Rightarrow> False
                       | Some s \<Rightarrow> contains ''view event'' (lower s)));
                   view_url = (case view_link of
                                 None \<Rightarrow> event_url
                               | Some v \<Rightarrow> urljoin E base (href_of v))
               in [\<lparr>title = title, url = event_url, start_date = start, end_date = [],
                    location = loc, organizer = [], sector = [], description = [],
                    view_event_url = view_url\<rparr>])"

definition extract_events_from_list :: "env \<Rightarrow> element \<Rightarrow> string \<Rightarrow> Event list" where
  "extract_events_from_list E soup base =
     (case find_first soup (\<lambda>n. named [''div''] n \<and> has_class ''calendar-events'' n) of
        None \<Rightarrow> []
      | Some events_container \<Rightarrow>
          let items = find_all events_container (\<lambda>n. named [''div''] n \<and>
                        attr_matches ''class''
                          (\<lambda>v. contains ''event-item'' v \<or> contains ''item'' v) n);
              event_items = (if items = [] then find_all events_container (named [''div''])
                             else items)
          in concat (map (list_item E base) event_items))"

text \<open>The deduplication loop of \<^verbatim>\<open>fetch_events_for_month\<close>, with its two
  accumulators \<^verbatim>\<open>unique_events\<close> and \<^verbatim>\<open>seen_urls\<close>.\<close>

fun dedup_loop :: "Event list \<Rightarrow> Event list \<Rightarrow> string set \<Rightarrow> Event list" where
  "dedup_loop [] unique_events seen_urls = unique_events"
| "dedup_loop (event # rest) unique_events seen_urls =
     (if url event \<notin> seen_urls
      then dedup_loop rest (unique_events @ [event]) (insert (url event) seen_urls)
      else dedup_loop rest unique_events seen_urls)"

text \<open>\<^verbatim>\<open>calendar_events + list_events\<close> for a fetched page.\<close>

definition all_events_of :: "env \<Rightarrow> string \<Rightarrow> string \<Rightarrow> Event list" where
  "all_events_of E html_content u =
     (let soup = (BeautifulSoup E html_content, []) in
      extract_events_from_calendar E soup u @ extract_events_from_list E soup u)"

definition fetch_events_for_month :: "env \<Rightarrow> int \<Rightarrow> int \<Rightarrow> io list \<Rightarrow> Event list \<times> io list" where
  "fetch_events_for_month E month year h =
     (let u = get_month_url month year;
          (html_content, h1) = fetch_page E u 3 h
      in case html_content of
           None \<Rightarrow> ([], h1)
         | Some html \<Rightarrow>
             if html = [] then ([], h1)
             else (dedup_loop (all_events_of E html u) [] {}, h1))"




section \<open>The ADNEC fetcher\<close>

text \<open>The exceptions that no handler of the fetcher catches.\<close>

datatype exn = WebDriverException | AttributeError

record AdnecEvent =
  adnec_title :: json
  adnec_title_ar :: json
  adnec_url :: string
  adnec_url_ar :: string
  adnec_start_date :: json
  adnec_end_date :: json
  adnec_location :: string
  adnec_organizer :: json
  adnec_description :: json
  adnec_image_url :: json
  adnec_organizer_url :: json

text \<open>The dictionary that \<^verbatim>\<open>extract_event_details\<close> returns, one field per key. The
  values read from the structured data are whatever JSON holds there.\<close>

record details =
  det_title :: json
  det_url :: string
  det_start_date :: json
  det_end_date :: json
  det_location :: string
  det_organizer :: json
  det_organizer_url :: json
  det_description :: json
  det_image_url :: json

text \<open>The fetcher object: \<^verbatim>\<open>__init__\<close> sets
  \<^verbatim>\<open>self.use_selenium = use_selenium and SELENIUM_AVAILABLE\<close>.\<close>

record fetcher =
  use_selenium :: bool

definition AdnecEventsFetcher :: "env \<Rightarrow> bool \<Rightarrow> fetcher" where
  "AdnecEventsFetcher E use = \<lparr>use_selenium = (use \<and> SELENIUM_AVAILABLE E)\<rparr>"

definition base_url_en :: string where
  "base_url_en = ''https://www.adnec.ae/en/eventlisting''"

definition base_url_ar :: string where
  "base_url_ar = ''https://www.adnec.ae/ar/eventlisting''"

text \<open>\<^verbatim>\<open>create_driver\<close>: \<open>None\<close> without Selenium; otherwise the driver, or the
  exception that installing and constructing it raises.\<close>

definition create_driver :: "env \<Rightarrow> io list \<Rightarrow> exn + unit option" where
  "create_driver E h =
     (if \<not> SELENIUM_AVAILABLE E then Inr None
      else if webdriver_Chrome E h then Inr (Some ()) else Inl WebDriverException)"

text \<open>\<^verbatim>\<open>fetch_page_with_selenium\<close>: the driver is created before the
  \<^verbatim>\<open>try\<close> block is entered.\<close>

definition fetch_page_with_selenium :: "env \<Rightarrow> string \<Rightarrow> io list \<Rightarrow> exn + (string option \<times> io list)" where
  "fetch_page_with_selenium E u h =
     (case create_driver E h of
        Inl e \<Rightarrow> Inl e
      | Inr None \<Rightarrow> Inr (None, h)
      | Inr (Some driver) \<Rightarrow> Inr (selenium_session E h u, h @ [Browse u]))"

definition adnec_fetch_page ::
  "fetcher \<Rightarrow> env \<Rightarrow> string \<Rightarrow> int \<Rightarrow> io list \<Rightarrow> exn + (string option \<times> io list)" where
  "adnec_fetch_page self E u retries h =
     (if contains ''/eventlisting'' u \<and> endswith u ''eventlisting'' \<and> use_selenium self
      then fetch_page_with_selenium E u h
      else Inr (fetch_loop E u retries [0..<nat retries] h))"

text \<open>The loop of \<^verbatim>\<open>extract_event_urls_from_listing\<close> with its accumulators
  \<^verbatim>\<open>event_urls\<close> and \<^verbatim>\<open>seen_urls\<close>.\<close>

fun listing_loop :: "env \<Rightarrow> string \<Rightarrow> element list \<Rightarrow> string list \<Rightarrow> string set \<Rightarrow> string list" where
  "listing_loop E base [] event_urls seen_urls = event_urls"
| "listing_loop E base (link # rest) event_urls seen_urls =
     (let href = href_of link in
      if href \<noteq> [] \<and> href \<notin> set [''/en/eventlisting'', ''/ar/eventlisting'']
      then let full_url = urljoin E base href in
           if full_url \<notin> seen_urls
           then listing_loop E base rest (event_urls @ [full_url]) (insert full_url seen_urls)
           else listing_loop E base rest event_urls seen_urls
      else listing_loop E base rest event_urls seen_urls)"

definition extract_event_urls_from_listing :: "env \<Rightarrow> string \<Rightarrow> string \<Rightarrow> string list" where
  "extract_event_urls_from_listing E html_content base =
     (let soup = (BeautifulSoup E html_content, []);
          event_links = find_all soup (\<lambda>n. named [''a''] n \<and>
             attr_matches ''href'' (\<lambda>x. x \<noteq> [] \<and> contains ''/eventlisting/'' x) n)
      in listing_loop E base event_links [] {})"

text \<open>\<^verbatim>\<open>parse_iso_datetime_to_readable\<close>: the bare \<^verbatim>\<open>except\<close> hands back the
  argument, whatever it is.\<close>

definition parse_iso_datetime_to_readable :: "env \<Rightarrow> json \<Rightarrow> json" where
  "parse_iso_datetime_to_readable E v =
     (case v of
        JStr s \<Rightarrow> (case isoformat_readable E s of None \<Rightarrow> v | Some r \<Rightarrow> JStr r)
      | _ \<Rightarrow> v)"

text \<open>
  A regular expression that is a sequence of character classes, each taken once, optionally,
  or one or more times, matched against a whole string with backtracking.
\<close>

datatype quantifier = Once | Optional | Plus

fun rx_match :: "((char \<Rightarrow> bool) \<times> quantifier) list \<Rightarrow> string \<Rightarrow> bool" where
  "rx_match [] s = (s = [])"
| "rx_match ((p, Once) # r) [] = False"
| "rx_match ((p, Once) # r) (c # cs) = (p c \<and> rx_match r cs)"
| "rx_match ((p, Optional) # r) [] = rx_match r []"
| "rx_match ((p, Optional) # r) (c # cs) = ((p c \<and> rx_match r cs) \<or> rx_match r (c # cs))"
| "rx_match ((p, Plus) # r) [] = False"
| "rx_match ((p, Plus) # r) (c # cs) = (p c \<and> (rx_match ((p, Plus) # r) cs \<or> rx_match r cs))"

text \<open>A letter under \<^verbatim>\<open>re.IGNORECASE\<close>.\<close>

definition ci :: "char \<Rightarrow> char \<Rightarrow> bool" where
  "ci l c = (lower_char c = l)"

text \<open>\<^verbatim>\<open>re.match(r'^Hall[s]?\s+[\d\-,\s]+$', location, re.IGNORECASE)\<close>. The class
  before \<^verbatim>\<open>$\<close> takes a final newline itself, so matching the whole string is what
  \<^verbatim>\<open>$\<close> asks for.\<close>

definition hall_pattern :: "string \<Rightarrow> bool" where
  "hall_pattern s =
     rx_match [(ci CHR ''h'', Once), (ci CHR ''a'', Once), (ci CHR ''l'', Once),
               (ci CHR ''l'', Once), (ci CHR ''s'', Optional), (isspace, Plus),
               (\<lambda>c. isdigit c \<or> c = CHR ''-'' \<or> c = CHR '','' \<or> isspace c, Plus)] s"

definition format_location :: "string \<Rightarrow> string" where
  "format_location loc =
     (let location = strip loc in
      if hall_pattern location then ''ADNEC ('' @ location @ '')''
      else if contains ''hall'' (lower location) \<and> \<not> contains ''ADNEC'' location
      then ''ADNEC ('' @ location @ '')''
      else location)"

text \<open>
  The loop over the structured-data scripts in \<^verbatim>\<open>extract_event_details\<close>. A script
  is looked at when it has a string that contains \<^verbatim>\<open>@type\<close>; a
  \<^verbatim>\<open>JSONDecodeError\<close> moves on to the next script; \<^verbatim>\<open>data.get\<close> exists on a
  dictionary only.
\<close>

fun script_loop :: "env \<Rightarrow> element list \<Rightarrow> exn + (string \<times> json) list option" where
  "script_loop E [] = Inr None"
| "script_loop E (script # rest) =
     (case node_string (fst script) of
        None \<Rightarrow> script_loop E rest
      | Some s \<Rightarrow>
          if s \<noteq> [] \<and> contains ''@type'' s
          then (case json_loads E s of
                  None \<Rightarrow> script_loop E rest
                | Some (JObj d) \<Rightarrow>
                    if map_of d ''@type'' = Some (JStr ''Event'') then Inr (Some d)
                    else script_loop E rest
                | Some _ \<Rightarrow> Inl AttributeError)
          else script_loop E rest)"

text \<open>The Arabic word for location, in UTF-8.\<close>

definition arabic_location :: string where
  "arabic_location = [CHR 0xD8, CHR 0xA7, CHR 0xD9, CHR 0x84, CHR 0xD9, CHR 0x85,
                      CHR 0xD9, CHR 0x88, CHR 0xD9, CHR 0x82, CHR 0xD8, CHR 0xB9]"

definition is_label_line :: "string \<Rightarrow> bool" where
  "is_label_line line = (contains ''Location:'' line \<or> contains arabic_location line)"

text \<open>The loop \<^verbatim>\<open>for i, line in enumerate(lines)\<close>: \<^verbatim>\<open>lines[i + 1]\<close> is the head
  of the lines that follow; the second argument is \<^verbatim>\<open>hall_location\<close> so far.\<close>

fun location_loop :: "string list \<Rightarrow> string \<Rightarrow> string" where
  "location_loop [] hall_location = hall_location"
| "location_loop [line] hall_location = hall_location"
| "location_loop (line # next_line # rest) hall_location =
     (if is_label_line line \<and> \<not> contains '':'' next_line then format_location next_line
      else location_loop (next_line # rest) hall_location)"

definition location_label :: "node \<Rightarrow> bool" where
  "location_label n =
     (case n of
        NavigableString x \<Rightarrow>
          x \<noteq> [] \<and> (contains ''location:'' (lower x) \<or> contains arabic_location x)
      | Tag _ _ _ \<Rightarrow> False)"

definition container_lines :: "element \<Rightarrow> string list" where
  "container_lines container =
     filter (\<lambda>l. l \<noteq> []) (map strip (split_char (CHR 0x0A) (get_text (fst container))))"

definition hall_location_of :: "element \<Rightarrow> string" where
  "hall_location_of soup =
     (let hall_location = ''ADNEC Centre Abu Dhabi'' in
      case find_first soup location_label of
        None \<Rightarrow> hall_location
      | Some label \<Rightarrow>
          (case find_parent label of
             None \<Rightarrow> hall_location
           | Some parent \<Rightarrow>
               (case find_parent_named [''div'', ''section''] parent of
                  None \<Rightarrow> hall_location
                | Some container \<Rightarrow> location_loop (container_lines container) hall_location)))"

text \<open>\<^verbatim>\<open>d.get(key, '')\<close> on a dictionary.\<close>

definition dict_get :: "(string \<times> json) list \<Rightarrow> string \<Rightarrow> json" where
  "dict_get d k = (case map_of d k of None \<Rightarrow> JStr [] | Some v \<Rightarrow> v)"

text \<open>The organizer's name and URL; \<^verbatim>\<open>org.get\<close> exists on a dictionary only.\<close>

definition organizer_of :: "(string \<times> json) list \<Rightarrow> exn + (json \<times> json)" where
  "organizer_of event_data =
     (case map_of event_data ''organizer'' of
        None \<Rightarrow> Inr (JStr [], JStr [])
      | Some (JObj org) \<Rightarrow> Inr (dict_get org ''name'', dict_get org ''url'')
      | Some _ \<Rightarrow> Inl AttributeError)"

definition image_of :: "(string \<times> json) list \<Rightarrow> json" where
  "image_of event_data =
     (case map_of event_data ''image'' of
        Some (JArr (first # _)) \<Rightarrow> first
      | Some (JStr s) \<Rightarrow> JStr s
      | _ \<Rightarrow> JStr [])"

text \<open>The dictionary built at the end of \<^verbatim>\<open>extract_event_details\<close>.\<close>

definition details_dict :: "env \<Rightarrow> string \<Rightarrow> element \<Rightarrow> (string \<times> json) list \<Rightarrow> json \<Rightarrow> json \<Rightarrow> details" where
  "details_dict E u soup event_data organizer_name organizer_url =
     \<lparr>det_title = dict_get event_data ''name'',
      det_url = u,
      det_start_date = parse_iso_datetime_to_readable E (dict_get event_data ''startDate''),
      det_end_date = parse_iso_datetime_to_readable E (dict_get event_data ''endDate''),
      det_location = hall_location_of soup,
      det_organizer = organizer_name,
      det_organizer_url = organizer_url,
      det_description = dict_get event_data ''description'',
      det_image_url = image_of event_data\<rparr>"

definition extract_event_details ::
  "fetcher \<Rightarrow> env \<Rightarrow> string \<Rightarrow> io list \<Rightarrow> exn + (details option \<times> io list)" where
  "extract_event_details self E u h =
     (case adnec_fetch_page self E u 3 h of
        Inl e \<Rightarrow> Inl e
      | Inr (None, h1) \<Rightarrow> Inr (None, h1)
      | Inr (Some html_content, h1) \<Rightarrow>
          if html_content = [] then Inr (None, h1)
          else
            let soup = (BeautifulSoup E html_content, []);
                scripts = find_all soup (\<lambda>n. named [''script''] n \<and>
                            attr_matches ''type'' (\<lambda>v. v = ''application/ld+json'') n)
            in (case script_loop E scripts of
                  Inl e \<Rightarrow> Inl e
                | Inr None \<Rightarrow> Inr (None, h1)
                | Inr (Some event_data) \<Rightarrow>
                    if event_data = [] then Inr (None, h1)
                    else
                      (case organizer_of event_data of
                         Inl e \<Rightarrow> Inl e
                       | Inr (organizer_name, organizer_url) \<Rightarrow>
                           Inr (Some (details_dict E u soup event_data organizer_name
                                        organizer_url), h1))))"

text \<open>\<^verbatim>\<open>s.split(sep)\<close> for a separator of several characters: the pieces between
  the occurrences found from left to right.\<close>

function split_str :: "string \<Rightarrow> string \<Rightarrow> string list" where
  "split_str sep s =
     (if sep = [] \<or> s = [] then [s]
      else if startswith s sep then [] # split_str sep (drop (length sep) s)
      else (case split_str sep (tl s) of
              [] \<Rightarrow> [[hd s]]
            | w # ws \<Rightarrow> (hd s # w) # ws))"
  by pat_completeness auto
termination
  by (relation "measure (\<lambda>(sep, s). length s)") auto

declare split_str.simps [simp del]

text \<open>The English address that belongs to an Arabic one: the same slug after
  \<^verbatim>\<open>/eventlisting/\<close>.\<close>

definition en_equivalent :: "string \<Rightarrow> string" where
  "en_equivalent ar_url =
     ''https://www.adnec.ae/en/eventlisting/'' @ last (split_str ''/eventlisting/'' ar_url)"

text \<open>The loop that fills \<^verbatim>\<open>url_mapping\<close>; a later address overwrites an earlier one
  with the same slug.\<close>

fun mapping_loop :: "string list \<Rightarrow> (string \<rightharpoonup> string) \<Rightarrow> (string \<rightharpoonup> string)" where
  "mapping_loop [] url_mapping = url_mapping"
| "mapping_loop (ar_url # rest) url_mapping =
     mapping_loop rest (url_mapping(en_equivalent ar_url \<mapsto> ar_url))"

text \<open>The Arabic title of an item: empty unless the mapped Arabic page yields details.\<close>

definition arabic_title ::
  "fetcher \<Rightarrow> env \<Rightarrow> string \<Rightarrow> io list \<Rightarrow> exn + (json \<times> io list)" where
  "arabic_title self E ar_url h =
     (if ar_url \<noteq> [] then
        (case extract_event_details self E ar_url h of
           Inl e \<Rightarrow> Inl e
         | Inr (None, h1) \<Rightarrow> Inr (JStr [], h1)
         | Inr (Some ar_details, h1) \<Rightarrow> Inr (det_title ar_details, h1))
      else Inr (JStr [], h))"

text \<open>The loop over \<^verbatim>\<open>en_urls\<close> in \<^verbatim>\<open>fetch_all_events\<close>: an item without
  details is passed over by \<^verbatim>\<open>continue\<close>, before the sleep.\<close>

fun details_loop ::
  "fetcher \<Rightarrow> env \<Rightarrow> string list \<Rightarrow> (string \<rightharpoonup> string) \<Rightarrow> AdnecEvent list \<Rightarrow> io list
     \<Rightarrow> exn + (AdnecEvent list \<times> io list)" where
  "details_loop self E [] url_mapping events h = Inr (events, h)"
| "details_loop self E (en_url # rest) url_mapping events h =
     (case extract_event_details self E en_url h of
        Inl e \<Rightarrow> Inl e
      | Inr (None, h1) \<Rightarrow> details_loop self E rest url_mapping events h1
      | Inr (Some en_details, h1) \<Rightarrow>
          (let ar_url = (case url_mapping en_url of None \<Rightarrow> [] | Some a \<Rightarrow> a) in
           case arabic_title self E ar_url h1 of
             Inl e \<Rightarrow> Inl e
           | Inr (title_ar, h2) \<Rightarrow>
               details_loop self E rest url_mapping
                 (events @ [\<lparr>adnec_title = det_title en_details,
                              adnec_title_ar = title_ar,
                              adnec_url = en_url,
                              adnec_url_ar = ar_url,
                              adnec_start_date = det_start_date en_details,
                              adnec_end_date = det_end_date en_details,
                              adnec_location = det_location en_details,
                              adnec_organizer = det_organizer en_details,
                              adnec_description = det_description en_details,
                              adnec_image_url = det_image_url en_details,
                              adnec_organizer_url = det_organizer_url en_details\<rparr>])
                 (h2 @ [Sleep 1])))"

text \<open>The Arabic listing, when asked for: the mapping it gives, empty when the page is
  not available.\<close>

definition arabic_mapping ::
  "fetcher \<Rightarrow> env \<Rightarrow> bool \<Rightarrow> io list \<Rightarrow> exn + ((string \<rightharpoonup> string) \<times> io list)" where
  "arabic_mapping self E include_arabic h =
     (if include_arabic then
        (case adnec_fetch_page self E base_url_ar 3 h of
           Inl e \<Rightarrow> Inl e
         | Inr (None, h1) \<Rightarrow> Inr (Map.empty, h1)
         | Inr (Some ar_html, h1) \<Rightarrow>
             if ar_html = [] then Inr (Map.empty, h1)
             else Inr (mapping_loop (extract_event_urls_from_listing E ar_html base_url_ar)
                         Map.empty, h1))
      else Inr (Map.empty, h))"

definition fetch_all_events ::
  "fetcher \<Rightarrow> env \<Rightarrow> bool \<Rightarrow> io list \<Rightarrow> exn + (AdnecEvent list \<times> io list)" where
  "fetch_all_events self E include_arabic h =
     (case adnec_fetch_page self E base_url_en 3 h of
        Inl e \<Rightarrow> Inl e
      | Inr (None, h1) \<Rightarrow> Inr ([], h1)
      | Inr (Some en_html, h1) \<Rightarrow>
          if en_html = [] then Inr ([], h1)
          else
            (let en_urls = extract_event_urls_from_listing E en_html base_url_en in
             case arabic_mapping self E include_arabic h1 of
               Inl e \<Rightarrow> Inl e
             | Inr (url_mapping, h2) \<Rightarrow> details_loop self E en_urls url_mapping [] h2))"

section \<open>Notions used in the statements\<close>

text \<open>The addresses requested and the waits slept in a history, in order.\<close>

fun requests_of :: "io list \<Rightarrow> string list" where
  "requests_of [] = []"
| "requests_of (Get u # tr) = u # requests_of tr"
| "requests_of (x # tr) = requests_of tr"

fun waits_of :: "io list \<Rightarrow> nat list" where
  "waits_of [] = []"
| "waits_of (Sleep n # tr) = n # waits_of tr"
| "waits_of (x # tr) = waits_of tr"

text \<open>What \<open>k\<close> failed attempts numbered from \<open>a\<close> leave in the history when each is
  followed by its wait, and what \<open>k\<close> attempts leave when no wait follows the last.\<close>

definition failed_attempts :: "string \<Rightarrow> nat \<Rightarrow> nat \<Rightarrow> io list" where
  "failed_attempts u a k = concat (map (\<lambda>i. [Get u, Sleep (2 ^ i)]) [a..<a + k])"

definition attempts_trace :: "string \<Rightarrow> nat \<Rightarrow> nat \<Rightarrow> io list" where
  "attempts_trace u a k = (if k = 0 then [] else failed_attempts u a (k - 1) @ [Get u])"

text \<open>The raw candidate records of a single-month fetch: what the two strategies produce
  together on the fetched page, and none when no page came back.\<close>

definition month_candidates :: "env \<Rightarrow> int \<Rightarrow> int \<Rightarrow> io list \<Rightarrow> Event list" where
  "month_candidates E month year h =
     (case fst (fetch_page E (get_month_url month year) 3 h) of
        None \<Rightarrow> []
      | Some html \<Rightarrow>
          if html = [] then [] else all_events_of E html (get_month_url month year))"

text \<open>Candidate \<open>i\<close> shares its URL with an earlier candidate.\<close>

definition repeats :: "Event list \<Rightarrow> nat \<Rightarrow> bool" where
  "repeats cands i = (url (cands ! i) \<in> url ` set (take i cands))"




section \<open>Concrete worlds\<close>

text \<open>
  Stand-ins for the libraries on the concrete pages below: \<open>join_absolute\<close> is what
  \<^verbatim>\<open>urljoin\<close> gives for an empty reference, a reference that starts with a slash and
  one that is a full address; the listing pages hold no digit and no venue name, so the date
  and location patterns find nothing there.
\<close>

fun origin :: "nat \<Rightarrow> string \<Rightarrow> string" where
  "origin n [] = []"
| "origin n (c # cs) =
     (if c = CHR ''/'' then (if n = 0 then [] else c # origin (n - 1) cs) else c # origin n cs)"

definition join_absolute :: "string \<Rightarrow> string \<Rightarrow> string" where
  "join_absolute base ref =
     (if ref = [] then base else if startswith ref ''/'' then origin 2 base @ ref else ref)"

definition world :: "(io list \<Rightarrow> string \<Rightarrow> response) \<Rightarrow> (string \<Rightarrow> node) \<Rightarrow> env" where
  "world net parser =
     \<lparr>http_get = net, BeautifulSoup = parser, urljoin = join_absolute,
      findall_dates = (\<lambda>t. []), findall_calendar_locations = (\<lambda>t. []),
      findall_list_locations = (\<lambda>t. []), SELENIUM_AVAILABLE = False,
      webdriver_Chrome = (\<lambda>h. False), selenium_session = (\<lambda>h u. None),
      json_loads = (\<lambda>s. None), isoformat_readable = (\<lambda>s. None)\<rparr>"

text \<open>A network on which every request fails.\<close>

definition network_down :: env where
  "network_down = world (\<lambda>h u. RequestException) (\<lambda>s. Tag ''[document]'' [] [])"

text \<open>
  A listing page with two items: an event and the link to the Arabic edition.
  \<^verbatim>\<open><div class="calendar-events">\<close>
  \<^verbatim>\<open><div class="event-item"><a href="/en/abu-dhabi-events/expo/">Expo</a></div>\<close>
  \<^verbatim>\<open><div class="event-item"><a href="/ar/abu-dhabi-events/">\<close> (the Arabic label)
  \<^verbatim>\<open></a></div></div>\<close>
\<close>

definition listing_markup :: string where
  "listing_markup =
     ''<div class=\"calendar-events\">''
     @ ''<div class=\"event-item\"><a href=\"/en/abu-dhabi-events/expo/\">Expo</a></div>''
     @ ''<div class=\"event-item\"><a href=\"/ar/abu-dhabi-events/\">'' @ arabic_label
     @ ''</a></div></div>''"

definition listing_page :: node where
  "listing_page =
     Tag ''[document]'' []
       [Tag ''div'' [(''class'', ''calendar-events'')]
          [Tag ''div'' [(''class'', ''event-item'')]
             [Tag ''a'' [(''href'', ''/en/abu-dhabi-events/expo/'')] [NavigableString ''Expo'']],
           Tag ''div'' [(''class'', ''event-item'')]
             [Tag ''a'' [(''href'', ''/ar/abu-dhabi-events/'')] [NavigableString arabic_label]]]]"

text \<open>A world in which every request is answered with that page.\<close>

definition listing_world :: env where
  "listing_world =
     world (\<lambda>h u. Text listing_markup)
       (\<lambda>s. if s = listing_markup then listing_page else Tag ''[document]'' [] [])"

text \<open>
  A detail page with one structured-data block and a location that names no hall:
  \<^verbatim>\<open><script type="application/ld+json">{"@type": "Event", "name": "Expo"}</script>\<close>
  \<^verbatim>\<open><div><span>Location:</span>\<close>, a newline,
  \<^verbatim>\<open><span>Conference Room A</span></div>\<close>
\<close>

definition event_json :: string where
  "event_json = ''{\"@type\": \"Event\", \"name\": \"Expo\"}''"

definition location_block :: node where
  "location_block =
     Tag ''div'' []
       [Tag ''span'' [] [NavigableString ''Location:''],
        NavigableString [CHR 0x0A],
        Tag ''span'' [] [NavigableString ''Conference Room A'']]"

definition detail_page :: node where
  "detail_page =
     Tag ''[document]'' []
       [Tag ''script'' [(''type'', ''application/ld+json'')] [NavigableString event_json],
        location_block]"

definition detail_markup :: string where
  "detail_markup =
     ''<script type=\"application/ld+json\">'' @ event_json @ ''</script>''
     @ ''<div><span>Location:</span>'' @ [CHR 0x0A] @ ''<span>Conference Room A</span></div>''"


definition plain_fetcher :: fetcher where
  "plain_fetcher = \<lparr>use_selenium = False\<rparr>"

definition detail_url :: string where
  "detail_url = ''https://www.adnec.ae/en/eventlisting/expo''"



text \<open>A world with Selenium installed in which the browser cannot be started: constructing
  the driver raises.\<close>

definition no_browser_world :: env where
  "no_browser_world =
     (world (\<lambda>h u. Text detail_markup)
        (\<lambda>s. if s = detail_markup then detail_page else Tag ''[document]'' [] []))
     \<lparr>SELENIUM_AVAILABLE := True, webdriver_Chrome := (\<lambda>h. False)\<rparr>"

text \<open>
  An English listing with two events,
  \<^verbatim>\<open><div class="grid"><a href="/en/eventlisting/expo">Expo</a>\<close>
  \<^verbatim>\<open><a href="/en/eventlisting/summit">Summit</a></div>\<close>,
  and a detail page whose only structured-data block is a list:
  \<^verbatim>\<open><script type="application/ld+json">[{"@type": "BreadcrumbList"}]</script>\<close>
\<close>

definition adnec_listing_markup :: string where
  "adnec_listing_markup =
     ''<div class=\"grid\"><a href=\"/en/eventlisting/expo\">Expo</a>''
     @ ''<a href=\"/en/eventlisting/summit\">Summit</a></div>''"

definition adnec_listing_page :: node where
  "adnec_listing_page =
     Tag ''[document]'' []
       [Tag ''div'' [(''class'', ''grid'')]
          [Tag ''a'' [(''href'', ''/en/eventlisting/expo'')] [NavigableString ''Expo''],
           Tag ''a'' [(''href'', ''/en/eventlisting/summit'')] [NavigableString ''Summit'']]]"

definition breadcrumb_json :: string where
  "breadcrumb_json = ''[{\"@type\": \"BreadcrumbList\"}]''"

definition breadcrumb_markup :: string where
  "breadcrumb_markup = ''<script type=\"application/ld+json\">'' @ breadcrumb_json @ ''</script>''"

definition breadcrumb_page :: node where
  "breadcrumb_page =
     Tag ''[document]'' []
       [Tag ''script'' [(''type'', ''application/ld+json'')] [NavigableString breadcrumb_json]]"

text \<open>A world that serves the listing, the page with the list for the first event and
  the well-formed detail page for the second.\<close>

definition breadcrumb_world :: env where
  "breadcrumb_world =
     (world (\<lambda>h u. if u = base_url_en then Text adnec_listing_markup
                    else if u = detail_url then Text breadcrumb_markup
                    else Text detail_markup)
        (\<lambda>s. if s = adnec_listing_markup then adnec_listing_page
              else if s = breadcrumb_markup then breadcrumb_page
              else if s = detail_markup then detail_page
              else Tag ''[document]'' [] []))
     \<lparr>json_loads := (\<lambda>s. if s = breadcrumb_json
                            then Some (JArr [JObj [(''@type'', JStr ''BreadcrumbList'')]])
                            else if s = event_json
                            then Some (JObj [(''@type'', JStr ''Event''), (''name'', JStr ''Expo'')])
                            else None)\<rparr>"

section \<open>Retry and backoff of the page fetcher\<close>

lemma failed_attempts_0 [simp]: "failed_attempts u a 0 = []"
  by (simp add: failed_attempts_def)

lemma failed_attempts_Suc:
  "failed_attempts u a (Suc k) = Get u # Sleep (2 ^ a) # failed_attempts u (Suc a) k"
  by (simp add: failed_attempts_def upt_conv_Cons)

lemma failed_attempts_snoc:
  "failed_attempts u a (Suc k) = failed_attempts u a k @ [Get u, Sleep (2 ^ (a + k))]"
  by (simp add: failed_attempts_def)

lemma requests_of_append [simp]: "requests_of (xs @ ys) = requests_of xs @ requests_of ys"
  by (induction xs rule: requests_of.induct) auto

lemma waits_of_append [simp]: "waits_of (xs @ ys) = waits_of xs @ waits_of ys"
  by (induction xs rule: waits_of.induct) auto

lemma requests_of_failed: "requests_of (failed_attempts u a k) = replicate k u"
  by (induction k arbitrary: a) (auto simp: failed_attempts_Suc)

lemma waits_of_failed: "waits_of (failed_attempts u a k) = map (\<lambda>i. 2 ^ i) [a..<a + k]"
  by (induction k) (auto simp: failed_attempts_snoc)

lemma requests_of_attempts: "requests_of (attempts_trace u a k) = replicate k u"
  by (cases k) (auto simp: attempts_trace_def requests_of_failed replicate_append_same)

lemma waits_of_attempts:
  "waits_of (attempts_trace u a k) = map (\<lambda>i. 2 ^ i) [a..<a + (k - 1)]"
  by (auto simp: attempts_trace_def waits_of_failed)

lemma sorted_powers: "sorted_wrt (<) (map (\<lambda>i. (2::nat) ^ i) [a..<b])"
  by (simp add: sorted_wrt_map sorted_wrt_upt)

text \<open>
  The loop from attempt \<open>a\<close> on makes some \<open>k\<close> attempts within the range. All but the
  last of them failed and were followed by their wait. The result is \<open>None\<close> only when
  the range is used up and the last attempt failed as well; it is the text of the last
  attempt otherwise.
\<close>

lemma fetch_loop_trace:
  "\<exists>k. a + k \<le> max a (nat r) \<and>
     snd (fetch_loop E u r [a..<nat r] h) = h @ attempts_trace u a k \<and>
     (\<forall>i<k - 1. http_get E (h @ failed_attempts u a i) u = RequestException) \<and>
     (case fst (fetch_loop E u r [a..<nat r] h) of
        None \<Rightarrow> a + k = max a (nat r) \<and>
                 (0 < k \<longrightarrow> http_get E (h @ failed_attempts u a (k - 1)) u = RequestException)
      | Some t \<Rightarrow> 0 < k \<and> http_get E (h @ failed_attempts u a (k - 1)) u = Text t)"
proof (induction "nat r - a" arbitrary: a h)
  case 0
  then have "[a..<nat r] = []" by simp
  then show ?case
    by (intro exI [of _ 0]) (use 0 in \<open>simp add: attempts_trace_def max_def\<close>)
next
  case (Suc d)
  then have lt: "a < nat r" and d: "d = nat r - Suc a" by simp_all
  have range: "[a..<nat r] = a # [Suc a..<nat r]"
    using lt by (simp add: upt_conv_Cons)
  show ?case
  proof (cases "http_get E h u")
    case (Text t)
    then show ?thesis
      using lt by (intro exI [of _ 1]) (simp add: range attempts_trace_def)
  next
    case RequestException
    show ?thesis
    proof (cases "int a < r - 1")
      case False
      then show ?thesis
        using lt RequestException
        by (intro exI [of _ 1]) (simp add: range attempts_trace_def max_def)
    next
      case True
      let ?h = "h @ [Get u, Sleep (2 ^ a)]"
      from Suc.hyps(1) [OF d, of ?h] obtain k where k:
        "Suc a + k \<le> max (Suc a) (nat r)"
        "snd (fetch_loop E u r [Suc a..<nat r] ?h) = ?h @ attempts_trace u (Suc a) k"
        "\<forall>i<k - 1. http_get E (?h @ failed_attempts u (Suc a) i) u = RequestException"
        "case fst (fetch_loop E u r [Suc a..<nat r] ?h) of
           None \<Rightarrow> Suc a + k = max (Suc a) (nat r) \<and>
                 (0 < k \<longrightarrow> http_get E (?h @ failed_attempts u (Suc a) (k - 1)) u = RequestException)
         | Some t \<Rightarrow> 0 < k \<and> http_get E (?h @ failed_attempts u (Suc a) (k - 1)) u = Text t"
        by blast
      from True have lt2: "Suc a < nat r" by simp
      have step: "fetch_loop E u r [a..<nat r] h = fetch_loop E u r [Suc a..<nat r] ?h"
        using True RequestException by (simp add: range)
      have kpos: "0 < k"
      proof (cases "fst (fetch_loop E u r [Suc a..<nat r] ?h)")
        case None
        with k(4) lt2 show ?thesis by (simp add: max_def)
      next
        case (Some t)
        with k(4) show ?thesis by simp
      qed
      have shift: "?h @ failed_attempts u (Suc a) i = h @ failed_attempts u a (Suc i)" for i
        by (simp add: failed_attempts_Suc)
      have tr: "?h @ attempts_trace u (Suc a) k = h @ attempts_trace u a (Suc k)"
        using kpos by (cases k) (simp_all add: attempts_trace_def failed_attempts_Suc)
      have fails: "\<forall>i<Suc k - 1. http_get E (h @ failed_attempts u a i) u = RequestException"
      proof (intro allI impI)
        fix i assume i: "i < Suc k - 1"
        show "http_get E (h @ failed_attempts u a i) u = RequestException"
        proof (cases i)
          case 0
          then show ?thesis using RequestException by simp
        next
          case (Suc j)
          with i have "j < k - 1" by simp
          with k(3) have "http_get E (?h @ failed_attempts u (Suc a) j) u = RequestException"
            by blast
          then show ?thesis unfolding shift Suc .
        qed
      qed
      have last: "Suc k - 1 = Suc (k - 1)" using kpos by simp
      show ?thesis
      proof (intro exI [of _ "Suc k"] conjI)
        show "a + Suc k \<le> max a (nat r)" using k(1) lt2 by (simp add: max_def)
        show "snd (fetch_loop E u r [a..<nat r] h) = h @ attempts_trace u a (Suc k)"
          unfolding step using k(2) tr by simp
        show "\<forall>i<Suc k - 1. http_get E (h @ failed_attempts u a i) u = RequestException"
          by (rule fails)
        show "case fst (fetch_loop E u r [a..<nat r] h) of
                None \<Rightarrow> a + Suc k = max a (nat r) \<and>
                  (0 < Suc k \<longrightarrow> http_get E (h @ failed_attempts u a (Suc k - 1)) u = RequestException)
              | Some t \<Rightarrow> 0 < Suc k \<and> http_get E (h @ failed_attempts u a (Suc k - 1)) u = Text t"
          unfolding step last shift [symmetric]
          using k(4) kpos lt2 by (auto simp: max_def split: option.splits)
      qed
    qed
  qed
qed

text \<open>
  Claim C3. For every address and retry budget \<open>r\<close>, the page fetcher makes some
  \<open>k \<le> r\<close> attempts (none for a budget below one). Its history grows by exactly these
  requests with a wait of \<open>2 ^ i\<close> after attempt \<open>i\<close> for every attempt but the last
  one made: the waits are 1, 2, 4, ..., strictly increasing, and the last entry is a request,
  not a wait. Every attempt but the last one made failed. The result is absence exactly when
  the budget is used up with the last attempt failing too, and then all \<open>r\<close> attempts were
  made; no exception is involved. The ADNEC fetcher's loop is the same one whenever the
  address is not a listing fetched through the browser.
\<close>

theorem fetch_page_backoff:
  "\<exists>k tr. k \<le> nat r \<and> snd (fetch_page E u r h) = h @ tr \<and> tr = attempts_trace u 0 k
     \<and> requests_of tr = replicate k u
     \<and> waits_of tr = map (\<lambda>i. 2 ^ i) [0..<k - 1]
     \<and> sorted_wrt (<) (waits_of tr)
     \<and> (tr = [] \<or> last tr = Get u)
     \<and> (\<forall>i<k - 1. http_get E (h @ failed_attempts u 0 i) u = RequestException)
     \<and> (case fst (fetch_page E u r h) of
          None \<Rightarrow> k = nat r \<and>
                 (k = 0 \<or> http_get E (h @ failed_attempts u 0 (k - 1)) u = RequestException)
        | Some t \<Rightarrow> 0 < k \<and> http_get E (h @ failed_attempts u 0 (k - 1)) u = Text t)
     \<and> ((\<forall>i<nat r. http_get E (h @ failed_attempts u 0 i) u = RequestException)
          \<longrightarrow> fst (fetch_page E u r h) = None \<and> k = nat r)
     \<and> (\<not> (contains ''/eventlisting'' u \<and> endswith u ''eventlisting'' \<and> use_selenium self)
          \<longrightarrow> adnec_fetch_page self E u r h = Inr (fetch_page E u r h))"
proof -
  have "\<exists>k. k \<le> nat r \<and>
     snd (fetch_page E u r h) = h @ attempts_trace u 0 k \<and>
     (\<forall>i<k - 1. http_get E (h @ failed_attempts u 0 i) u = RequestException) \<and>
     (case fst (fetch_page E u r h) of
        None \<Rightarrow> k = nat r \<and>
                 (0 < k \<longrightarrow> http_get E (h @ failed_attempts u 0 (k - 1)) u = RequestException)
      | Some t \<Rightarrow> 0 < k \<and> http_get E (h @ failed_attempts u 0 (k - 1)) u = Text t)"
    using fetch_loop_trace [of 0 r E u h] by (simp add: fetch_page_def cong: option.case_cong)
  then obtain k where k:
    "k \<le> nat r"
    "snd (fetch_page E u r h) = h @ attempts_trace u 0 k"
    "\<forall>i<k - 1. http_get E (h @ failed_attempts u 0 i) u = RequestException"
    "case fst (fetch_page E u r h) of
        None \<Rightarrow> k = nat r \<and>
                 (0 < k \<longrightarrow> http_get E (h @ failed_attempts u 0 (k - 1)) u = RequestException)
      | Some t \<Rightarrow> 0 < k \<and> http_get E (h @ failed_attempts u 0 (k - 1)) u = Text t"
    by blast
  have allfail: "fst (fetch_page E u r h) = None \<and> k = nat r"
    if all: "\<forall>i<nat r. http_get E (h @ failed_attempts u 0 i) u = RequestException"
  proof (cases "fst (fetch_page E u r h)")
    case None
    with k(4) show ?thesis by simp
  next
    case (Some t)
    with k(4) have "0 < k" and "http_get E (h @ failed_attempts u 0 (k - 1)) u = Text t"
      by simp_all
    moreover from \<open>0 < k\<close> k(1) have "k - 1 < nat r" by simp
    ultimately show ?thesis using all by auto
  qed
  have lastget: "attempts_trace u 0 k = [] \<or> last (attempts_trace u 0 k) = Get u"
    by (simp add: attempts_trace_def)
  have adnec: "adnec_fetch_page self E u r h = Inr (fetch_page E u r h)"
    if "\<not> (contains ''/eventlisting'' u \<and> endswith u ''eventlisting'' \<and> use_selenium self)"
    using that by (auto simp: adnec_fetch_page_def fetch_page_def)
  have res: "case fst (fetch_page E u r h) of
          None \<Rightarrow> k = nat r \<and>
                 (k = 0 \<or> http_get E (h @ failed_attempts u 0 (k - 1)) u = RequestException)
        | Some t \<Rightarrow> 0 < k \<and> http_get E (h @ failed_attempts u 0 (k - 1)) u = Text t"
    using k(4) by (auto split: option.splits)
  show ?thesis
    apply (intro exI [of _ k] exI [of _ "attempts_trace u 0 k"] conjI)
    using k(1) apply simp
    using k(2) apply simp
    apply simp
    apply (simp add: requests_of_attempts)
    apply (simp add: waits_of_attempts)
    apply (simp add: waits_of_attempts sorted_powers)
    apply (rule lastget)
    apply (rule k(3))
    apply (rule res)
    using allfail apply blast
    using adnec apply blast
    done
qed

theorem fetch_page_backoff_witness:
  "http_get network_down [] ''u'' = RequestException
   \<and> fst (fetch_page network_down ''u'' 3 []) = None
   \<and> requests_of (snd (fetch_page network_down ''u'' 3 [])) = [''u'', ''u'', ''u'']
   \<and> waits_of (snd (fetch_page network_down ''u'' 3 [])) = [1, 2]"
proof -
  have fail: "http_get network_down h ''u'' = RequestException" for h
    by (simp add: network_down_def world_def)
  from fetch_page_backoff [where r = 3 and E = network_down and u = "''u''" and h = "[]"
      and self = "\<lparr>use_selenium = False\<rparr>"]
  obtain k tr where k:
    "snd (fetch_page network_down ''u'' 3 []) = [] @ tr"
    "requests_of tr = replicate k ''u''"
    "waits_of tr = map (\<lambda>i. 2 ^ i) [0..<k - 1]"
    "(\<forall>i<nat 3. http_get network_down ([] @ failed_attempts ''u'' 0 i) ''u'' = RequestException)
       \<longrightarrow> fst (fetch_page network_down ''u'' 3 []) = None \<and> k = nat 3"
    by blast
  from k(4) fail have none: "fst (fetch_page network_down ''u'' 3 []) = None" and k3: "k = 3"
    by simp_all
  have "[0..<2] = [0, Suc 0]" by (simp add: upt_rec)
  with k(1-3) k3 none fail show ?thesis
    by (simp add: numeral_3_eq_3)
qed

section \<open>Deduplication within one month\<close>

lemma dedup_loop_snoc:
  "dedup_loop (es @ [e]) un seen =
     (if url e \<in> seen \<union> url ` set es then dedup_loop es un seen
      else dedup_loop es un seen @ [e])"
proof (induction es arbitrary: un seen)
  case Nil
  then show ?case by simp
next
  case (Cons x es)
  show ?case
  proof (cases "url x \<in> seen")
    case True
    then have "seen \<union> url ` set (x # es) = seen \<union> url ` set es" by auto
    with True Cons show ?thesis by simp
  next
    case False
    have "insert (url x) seen \<union> url ` set es = seen \<union> url ` set (x # es)" by auto
    with False Cons [of "un @ [x]" "insert (url x) seen"] show ?thesis by simp
  qed
qed

lemma dedup_loop_first_occurrences:
  "dedup_loop cands [] {} =
     map (\<lambda>i. cands ! i) (filter (\<lambda>i. \<not> repeats cands i) [0..<length cands])"
proof (induction cands rule: rev_induct)
  case Nil
  then show ?case by simp
next
  case (snoc e cands)
  have same: "filter (\<lambda>i. \<not> repeats (cands @ [e]) i) [0..<length cands]
                = filter (\<lambda>i. \<not> repeats cands i) [0..<length cands]"
    by (rule filter_cong) (simp_all add: repeats_def nth_append)
  have nth: "map (\<lambda>i. (cands @ [e]) ! i) (filter (\<lambda>i. \<not> repeats cands i) [0..<length cands])
               = map (\<lambda>i. cands ! i) (filter (\<lambda>i. \<not> repeats cands i) [0..<length cands])"
    by (rule map_cong) (simp_all add: nth_append)
  have at_end: "repeats (cands @ [e]) (length cands) = (url e \<in> url ` set cands)"
    by (simp add: repeats_def)
  show ?case
    by (simp add: dedup_loop_snoc snoc same nth at_end)
qed

lemma dedup_loop_distinct:
  "distinct (map url un) \<Longrightarrow> url ` set un \<subseteq> seen \<Longrightarrow> distinct (map url (dedup_loop es un seen))"
proof (induction es arbitrary: un seen)
  case Nil
  then show ?case by simp
next
  case (Cons x es)
  show ?case
  proof (cases "url x \<in> seen")
    case True
    with Cons show ?thesis by simp
  next
    case False
    with Cons.prems have "distinct (map url (un @ [x]))" by auto
    moreover from Cons.prems have "url ` set (un @ [x]) \<subseteq> insert (url x) seen" by auto
    ultimately show ?thesis using False Cons.IH by simp
  qed
qed


lemma fetch_events_for_month_candidates:
  "fst (fetch_events_for_month E month year h) = dedup_loop (month_candidates E month year h) [] {}"
  by (simp add: fetch_events_for_month_def month_candidates_def Let_def
      split: prod.splits option.splits)

text \<open>
  Claim C1. The records returned by a single-month fetch have pairwise different URLs. If
  the two strategies together produce \<open>N\<close> candidates of which \<open>M\<close> share their URL with
  an earlier candidate, \<open>N - M\<close> records are returned, and they are the candidates that
  do not repeat an earlier URL, in their order: the first occurrence of each URL is kept.
\<close>

theorem fetch_events_for_month_dedup:
  "distinct (map url (fst (fetch_events_for_month E month year h)))
   \<and> length (fst (fetch_events_for_month E month year h))
       = length (month_candidates E month year h)
         - length (filter (repeats (month_candidates E month year h))
                     [0..<length (month_candidates E month year h)])
   \<and> fst (fetch_events_for_month E month year h)
       = map (\<lambda>i. month_candidates E month year h ! i)
           (filter (\<lambda>i. \<not> repeats (month_candidates E month year h) i)
              [0..<length (month_candidates E month year h)])"
proof -
  let ?c = "month_candidates E month year h"
  have out: "fst (fetch_events_for_month E month year h) = dedup_loop ?c [] {}"
    by (rule fetch_events_for_month_candidates)
  have "length (filter (\<lambda>i. \<not> repeats ?c i) [0..<length ?c])
          + length (filter (repeats ?c) [0..<length ?c]) = length ?c"
    using sum_length_filter_compl [of "\<lambda>i. \<not> repeats ?c i" "[0..<length ?c]"] by simp
  then have len: "length (filter (\<lambda>i. \<not> repeats ?c i) [0..<length ?c])
          = length ?c - length (filter (repeats ?c) [0..<length ?c])"
    by simp
  show ?thesis
    unfolding out
    using dedup_loop_distinct [of "[]" "{}" ?c] len
    by (simp add: dedup_loop_first_occurrences)
qed

section \<open>What the listing strategies let through\<close>

lemma find_all_sat: "d \<in> set (find_all el P) \<Longrightarrow> P (fst d)"
  by (simp add: find_all_def)

lemma find_first_sat: "find_first el P = Some d \<Longrightarrow> P (fst d)"
proof -
  assume "find_first el P = Some d"
  then have "d \<in> set (find_all el P)"
    by (auto simp: find_first_def split: list.splits)
  then show ?thesis by (rule find_all_sat)
qed

lemma contains_nonempty: "contains (p # ps) s \<Longrightarrow> s \<noteq> []"
  by (cases s) auto

lemma event_href_nonempty:
  assumes "event_href (fst link)"
  shows "contains ''/abu-dhabi-events/'' (href_of link)"
  using assms
  by (auto simp: event_href_def attr_matches_def href_of_def split: option.splits)

lemma calendar_link_gated:
  "e \<in> set (calendar_link E base link) \<Longrightarrow>
     title e \<noteq> [] \<and> url e \<noteq> [] \<and> lower (title e) \<notin> {''view event'', ''export'', arabic_label}"
  by (auto simp: calendar_link_def Let_def split: if_splits)

lemma list_item_gated:
  assumes "e \<in> set (list_item E base item)"
  shows "title e \<noteq> [] \<and> lower (title e) \<notin> {''view event'', ''export'', ''filter''}
     \<and> (\<exists>href. contains ''/abu-dhabi-events/'' href \<and> url e = urljoin E base href)"
proof (cases "find_first item event_href")
  case None
  with assms show ?thesis by (simp add: list_item_def)
next
  case (Some event_link)
  then have "contains ''/abu-dhabi-events/'' (href_of event_link)"
    by (intro event_href_nonempty find_first_sat)
  moreover from assms Some
  have "title e \<noteq> [] \<and> lower (title e) \<notin> {''view event'', ''export'', ''filter''}
          \<and> url e = urljoin E base (href_of event_link)"
    by (auto simp: list_item_def Let_def split: if_splits)
  ultimately show ?thesis by blast
qed

lemma calendar_gated:
  "e \<in> set (extract_events_from_calendar E soup base) \<Longrightarrow>
     title e \<noteq> [] \<and> url e \<noteq> [] \<and> lower (title e) \<notin> {''view event'', ''export'', arabic_label}"
  unfolding extract_events_from_calendar_def
  by (auto dest: calendar_link_gated)

lemma list_gated:
  "e \<in> set (extract_events_from_list E soup base) \<Longrightarrow>
     title e \<noteq> [] \<and> lower (title e) \<notin> {''view event'', ''export'', ''filter''}
     \<and> (\<exists>href. contains ''/abu-dhabi-events/'' href \<and> url e = urljoin E base href)"
  unfolding extract_events_from_list_def
  by (auto simp: Let_def split: option.splits if_splits dest: list_item_gated)

lemma join_absolute_nonempty: "ref \<noteq> [] \<Longrightarrow> join_absolute base ref \<noteq> []"
  by (simp add: join_absolute_def)

lemma listing_world_urljoin: "urljoin listing_world = join_absolute"
  by (simp add: listing_world_def world_def)

lemma listing_page_list:
  "extract_events_from_list listing_world (listing_page, []) (get_month_url 1 2025) =
     [\<lparr>title = ''Expo'',
       url = ''https://www.mediaoffice.abudhabi/en/abu-dhabi-events/expo/'',
       start_date = [], end_date = [], location = [], organizer = [],
       sector = [], description = [],
       view_event_url = ''https://www.mediaoffice.abudhabi/en/abu-dhabi-events/expo/''\<rparr>,
      \<lparr>title = arabic_label,
       url = ''https://www.mediaoffice.abudhabi/ar/abu-dhabi-events/'',
       start_date = [], end_date = [], location = [], organizer = [],
       sector = [], description = [],
       view_event_url = ''https://www.mediaoffice.abudhabi/ar/abu-dhabi-events/''\<rparr>]"
  by code_simp



text \<open>
  Claim C2. Every record that the calendar strategy or the list strategy puts out has a
  non-empty title and a non-empty URL, so a candidate that lacks either never appears. The
  calendar strategy tests both fields. The list strategy tests the title; its URL is
  \<^verbatim>\<open>urljoin\<close> of a link target that contains the event path, which is not empty
  as long as \<^verbatim>\<open>urljoin\<close> does not answer such a target with the empty string.
\<close>

theorem listing_records_have_title_and_url:
  "(\<forall>e \<in> set (extract_events_from_calendar E soup base). title e \<noteq> [] \<and> url e \<noteq> [])
   \<and> ((\<forall>href. contains ''/abu-dhabi-events/'' href \<longrightarrow> urljoin E base href \<noteq> [])
        \<longrightarrow> (\<forall>e \<in> set (extract_events_from_list E soup base). title e \<noteq> [] \<and> url e \<noteq> []))"
proof (intro conjI ballI impI)
  fix e assume "e \<in> set (extract_events_from_calendar E soup base)"
  then show "title e \<noteq> []" and "url e \<noteq> []"
    by (auto dest: calendar_gated)
next
  fix e
  assume join: "\<forall>href. contains ''/abu-dhabi-events/'' href \<longrightarrow> urljoin E base href \<noteq> []"
    and e: "e \<in> set (extract_events_from_list E soup base)"
  from list_gated [OF e] show "title e \<noteq> []" by simp
  from list_gated [OF e] obtain href
    where "contains ''/abu-dhabi-events/'' href" and "url e = urljoin E base href"
    by blast
  with join show "url e \<noteq> []" by simp
qed

theorem listing_records_have_title_and_url_witness:
  "length (extract_events_from_list listing_world (listing_page, []) (get_month_url 1 2025)) = 2
   \<and> title (hd (extract_events_from_list listing_world (listing_page, []) (get_month_url 1 2025))) \<noteq> []
   \<and> url (hd (extract_events_from_list listing_world (listing_page, []) (get_month_url 1 2025))) \<noteq> []"
proof -
  let ?out = "extract_events_from_list listing_world (listing_page, []) (get_month_url 1 2025)"
  have join: "\<forall>href. contains ''/abu-dhabi-events/'' href
                \<longrightarrow> urljoin listing_world (get_month_url 1 2025) href \<noteq> []"
  proof (intro allI impI)
    fix href assume "contains ''/abu-dhabi-events/'' href"
    then have "href \<noteq> []" by (rule contains_nonempty)
    then show "urljoin listing_world (get_month_url 1 2025) href \<noteq> []"
      unfolding listing_world_urljoin by (rule join_absolute_nonempty)
  qed
  have len: "length ?out = 2" by (simp add: listing_page_list)
  then have "hd ?out \<in> set ?out" by (cases ?out) auto
  with join listing_records_have_title_and_url
    [of listing_world "(listing_page, [])" "get_month_url 1 2025"]
  have "title (hd ?out) \<noteq> [] \<and> url (hd ?out) \<noteq> []" by blast
  with len show ?thesis by simp
qed




section \<open>The range of months\<close>
















section \<open>The location of an ADNEC event\<close>






text \<open>
  Claim C9. The hall-location formatter leaves the already formatted string
  \<^verbatim>\<open>ADNEC (Hall 3)\<close> unchanged.
\<close>

theorem format_location_already_formatted:
  "format_location ''ADNEC (Hall 3)'' = ''ADNEC (Hall 3)''"
  by code_simp





section \<open>Exceptions that escape the ADNEC fetcher\<close>

text \<open>
  Where nothing is raised the fetcher behaves as its handlers intend: without Selenium the
  browser fetch is absent, an absent listing gives no events, the script loop returns the
  first block that is an object of type \<^verbatim>\<open>Event\<close> and absence when no object
  block has that type, and the aggregator passes over an item without details.
\<close>

lemma fetch_page_with_selenium_unavailable:
  "\<not> SELENIUM_AVAILABLE E \<Longrightarrow> fetch_page_with_selenium E u h = Inr (None, h)"
  by (simp add: fetch_page_with_selenium_def create_driver_def)

lemma fetch_all_events_no_listing:
  "adnec_fetch_page self E base_url_en 3 h = Inr (None, h1) \<Longrightarrow>
     fetch_all_events self E include_arabic h = Inr ([], h1)"
  by (simp add: fetch_all_events_def)

lemma script_loop_found:
  "script_loop E scripts = Inr (Some d) \<Longrightarrow>
     \<exists>s \<in> set scripts. \<exists>t. node_string (fst s) = Some t \<and> contains ''@type'' t
        \<and> json_loads E t = Some (JObj d) \<and> map_of d ''@type'' = Some (JStr ''Event'')"
proof (induction scripts)
  case Nil
  then show ?case by simp
next
  case (Cons script rest)
  then show ?case
    by (auto split: option.splits if_splits json.splits)
qed

lemma script_loop_absent:
  "script_loop E scripts = Inr None \<Longrightarrow> s \<in> set scripts \<Longrightarrow> node_string (fst s) = Some t \<Longrightarrow>
     contains ''@type'' t \<Longrightarrow> json_loads E t = Some (JObj d) \<Longrightarrow>
     map_of d ''@type'' \<noteq> Some (JStr ''Event'')"
proof (induction scripts)
  case Nil
  then show ?case by simp
next
  case (Cons script rest)
  have t: "t \<noteq> []" using Cons.prems(4) by (cases t) auto
  show ?case
  proof (cases "s = script")
    case True
    with Cons.prems t show ?thesis by (auto split: if_splits)
  next
    case False
    with Cons.prems(2) have "s \<in> set rest" by simp
    moreover from Cons.prems(1) have "script_loop E rest = Inr None"
      by (auto split: option.splits if_splits json.splits)
    ultimately show ?thesis using Cons.IH Cons.prems(3-5) by blast
  qed
qed

lemma details_loop_skips_absent:
  "extract_event_details self E en_url h = Inr (None, h1) \<Longrightarrow>
     details_loop self E (en_url # rest) url_mapping events h
       = details_loop self E rest url_mapping events h1"
  by simp

text \<open>
  Claim C8 asks that a run in which the browser cannot be created gets absence from the
  browser-rendered listing fetch and goes on with no events for that listing. With Selenium
  installed and a browser that cannot be started, \<^verbatim>\<open>create_driver\<close> raises; it is
  called before the \<^verbatim>\<open>try\<close> block of \<^verbatim>\<open>fetch_page_with_selenium\<close>, so the
  exception leaves the listing fetch, \<^verbatim>\<open>fetch_page\<close> and \<^verbatim>\<open>fetch_all_events\<close>.
\<close>

theorem browser_creation_raises:
  "create_driver no_browser_world [] = Inl WebDriverException
   \<and> fetch_page_with_selenium no_browser_world base_url_en [] = Inl WebDriverException
   \<and> adnec_fetch_page (AdnecEventsFetcher no_browser_world True) no_browser_world base_url_en 3 []
       = Inl WebDriverException
   \<and> fetch_all_events (AdnecEventsFetcher no_browser_world True) no_browser_world True []
       = Inl WebDriverException"
  by code_simp

text \<open>
  Claim C5 asks that detail extraction returns absence when no structured-data block parses
  to data of type \<^verbatim>\<open>Event\<close>, and that the aggregator then goes on to the next item.
  On a detail page whose only block is a JSON list, \<^verbatim>\<open>data.get\<close> raises
  \<^verbatim>\<open>AttributeError\<close>, which no handler catches: the extraction raises instead of
  returning absence, and the aggregator stops before the second item.
\<close>

theorem list_block_raises:
  "extract_event_urls_from_listing breadcrumb_world adnec_listing_markup base_url_en
     = [detail_url, ''https://www.adnec.ae/en/eventlisting/summit'']
   \<and> script_loop breadcrumb_world
        [(Tag ''script'' [(''type'', ''application/ld+json'')] [NavigableString breadcrumb_json],
          [breadcrumb_page])] = Inl AttributeError
   \<and> extract_event_details plain_fetcher breadcrumb_world detail_url [] = Inl AttributeError
   \<and> fetch_all_events plain_fetcher breadcrumb_world False [] = Inl AttributeError"
  by code_simp

end
